theory Spec2Isabelle
  imports Complex_Main "HOL-Library.Word"
begin

unbundle bit_operations_syntax

section \<open>Retrieval core of \<^verbatim>\<open>backend/src/services/embedding.ts\<close>\<close>

text \<open>
  The development follows \<^verbatim>\<open>simpleHashEmbedding\<close>, \<^verbatim>\<open>cosineSimilarity\<close> and
  \<^verbatim>\<open>retrieveRelevantForms\<close>. Conventions of the model:
  \<^item> a JavaScript \<^verbatim>\<open>number\<close> holding a vector component or a score is a \<open>real\<close>:
    arithmetic is exact, there is no rounding, overflow or NaN;
  \<^item> the 32-bit integer that the bit operators \<^verbatim>\<open><<\<close> and \<^verbatim>\<open>&\<close> produce is a \<open>32 word\<close>;
  \<^item> a text is a \<open>string\<close>, each \<open>char\<close> standing for one code unit below 256
    (the Latin-1 range), so \<^verbatim>\<open>charCodeAt\<close> is \<open>of_char\<close>;
  \<^item> \<^verbatim>\<open>topK\<close> is an \<open>int\<close> (the code never checks its sign).
\<close>

subsection \<open>Text vectorizer\<close>

text \<open>\<^verbatim>\<open>String.prototype.toLowerCase\<close> on the Latin-1 range: \<^verbatim>\<open>A-Z\<close> and the accented
  capitals \<^verbatim>\<open>U+00C0..U+00DE\<close> (without the multiplication sign \<^verbatim>\<open>U+00D7\<close>) move up by 32.\<close>

definition lower_char :: "char \<Rightarrow> char" where
  "lower_char c =
     (let n = (of_char c :: nat)
      in if (65 \<le> n \<and> n \<le> 90) \<or> (192 \<le> n \<and> n \<le> 222 \<and> n \<noteq> 215)
         then char_of (n + 32) else c)"

definition toLowerCase :: "string \<Rightarrow> string" where
  "toLowerCase text = map lower_char text"

text \<open>The class \<^verbatim>\<open>\s\<close> of the regular expression, below 256: tab, line feed, vertical tab,
  form feed, carriage return, space and the no-break space.\<close>

definition is_space :: "char \<Rightarrow> bool" where
  "is_space c = ((of_char c :: nat) \<in> {9, 10, 11, 12, 13, 32, 160})"

text \<open>\<^verbatim>\<open>text.split(/\s+/)\<close>: the text is cut at every maximal run of white space. A run at
  the start leaves an empty first token, a run at the end an empty last token, and the empty
  text gives the single empty token.\<close>

function split_from :: "string \<Rightarrow> string \<Rightarrow> string list" where
  "split_from cur [] = [cur]"
| "split_from cur (c # cs) =
     (if is_space c then cur # split_from [] (dropWhile is_space cs)
      else split_from (cur @ [c]) cs)"
  by pat_completeness auto
termination
  by (relation "measure (\<lambda>(cur, rest). length rest)")
     (auto simp: le_imp_less_Suc length_dropWhile_le)

definition split_ws :: "string \<Rightarrow> string list" where
  "split_ws text = split_from [] text"

text \<open>One round of the inner loop: \<^verbatim>\<open>hash = ((hash << 5) - hash) + word.charCodeAt(i);
  hash = hash & hash\<close>. The variable holds a 32-bit integer after every round, the
  subtraction and the addition are exact on numbers of this size, and \<^verbatim>\<open>&\<close> reduces the
  sum to 32 bits again: the round is arithmetic modulo \<open>2 ^ 32\<close>.\<close>

definition hash_step :: "32 word \<Rightarrow> char \<Rightarrow> 32 word" where
  "hash_step hash c =
     (let hash = (push_bit 5 hash - hash) + of_char c
      in hash AND hash)"

definition word_hash :: "string \<Rightarrow> 32 word" where
  "word_hash word = foldl hash_step 0 word"

text \<open>The body of \<^verbatim>\<open>words.forEach((word, index) => ...)\<close>: \<^verbatim>\<open>Math.abs(hash) % embedding.length\<close>
  reads the hash as a signed number; the bucket gains \<open>1 / (index + 1)\<close>.\<close>

fun accumulate :: "string list \<Rightarrow> nat \<Rightarrow> real list \<Rightarrow> real list" where
  "accumulate [] index embedding = embedding"
| "accumulate (word # words) index embedding =
     (let idx = nat \<bar>sint (word_hash word)\<bar> mod length embedding
      in accumulate words (index + 1)
           (embedding[idx := embedding ! idx + 1 / (real index + 1)]))"

definition magnitude :: "real list \<Rightarrow> real" where
  "magnitude embedding = sqrt (foldl (\<lambda>sum val. sum + val * val) 0 embedding)"

definition simpleHashEmbedding :: "string \<Rightarrow> real list" where
  "simpleHashEmbedding text =
     (let words = split_ws (toLowerCase text);
          embedding = accumulate words 0 (replicate 128 0)
      in if magnitude embedding > 0
         then map (\<lambda>val. val / magnitude embedding) embedding
         else embedding)"

definition generateEmbedding :: "string \<Rightarrow> real list" where
  "generateEmbedding text = simpleHashEmbedding text"

subsection \<open>Similarity scorer\<close>

text \<open>The \<^verbatim>\<open>for\<close> loop of \<^verbatim>\<open>cosineSimilarity\<close> carries the three running sums; it runs only
  when both arrays have the same length, so every index is in range.\<close>

definition cosine_step :: "real list \<Rightarrow> real list \<Rightarrow> nat \<Rightarrow> real \<times> real \<times> real \<Rightarrow> real \<times> real \<times> real" where
  "cosine_step a b i acc =
     (case acc of (dotProduct, normA, normB) \<Rightarrow>
        (dotProduct + a ! i * b ! i, normA + a ! i * a ! i, normB + b ! i * b ! i))"

definition cosineSimilarity :: "real list \<Rightarrow> real list \<Rightarrow> real" where
  "cosineSimilarity a b =
     (if length a \<noteq> length b then 0
      else case fold (cosine_step a b) [0..<length a] (0, 0, 0) of
        (dotProduct, normA, normB) \<Rightarrow>
          if normA = 0 \<or> normB = 0 then 0
          else dotProduct / (sqrt normA * sqrt normB))"

subsection \<open>Record store\<close>

text \<open>A stored form, with the fields the retriever reads (\<^verbatim>\<open>IForm\<close>): \<^verbatim>\<open>embedding\<close> is
  optional, \<open>None\<close> stands for an absent or null field.\<close>

record form =
  form_id :: nat
  userId :: nat
  embedding :: "real list option"
  createdAt :: int

text \<open>The collection behind the \<^verbatim>\<open>Form\<close> model: its documents in natural order, and for each
  of the two queries of \<^verbatim>\<open>retrieveRelevantForms\<close> whether it throws. A query that throws
  has the value \<open>None\<close>.\<close>

record store =
  docs :: "form list"
  fetch_fails :: bool
  recent_fails :: bool

text \<open>\<^verbatim>\<open>Form.find({ userId, embedding: { $exists: true, $ne: null } }).limit(1000)\<close>\<close>

definition find_with_embedding :: "store \<Rightarrow> nat \<Rightarrow> form list option" where
  "find_with_embedding db uid =
     (if fetch_fails db then None
      else Some (take 1000 (filter (\<lambda>f. userId f = uid \<and> embedding f \<noteq> None) (docs db))))"

text \<open>The cursor's \<^verbatim>\<open>limit(n)\<close>: a limit of 0 is no limit, a negative limit counts as its
  absolute value.\<close>

definition limit :: "int \<Rightarrow> 'a list \<Rightarrow> 'a list" where
  "limit n xs = (if n = 0 then xs else take (nat \<bar>n\<bar>) xs)"

text \<open>\<^verbatim>\<open>Form.find({ userId }).sort({ createdAt: -1 }).limit(topK).exec()\<close>; forms with the
  same \<^verbatim>\<open>createdAt\<close> stay in natural order.\<close>

definition find_recent :: "store \<Rightarrow> nat \<Rightarrow> int \<Rightarrow> form list option" where
  "find_recent db uid topK =
     (if recent_fails db then None
      else Some (limit topK (sort_key (\<lambda>f. - createdAt f) (filter (\<lambda>f. userId f = uid) (docs db)))))"

subsection \<open>Relevance retriever\<close>

text \<open>\<^verbatim>\<open>Array.prototype.slice(0, end)\<close>: a negative \<^verbatim>\<open>end\<close> counts from the end of the
  array.\<close>

definition slice0 :: "int \<Rightarrow> 'a list \<Rightarrow> 'a list" where
  "slice0 end xs =
     (let len = int (length xs);
          final = (if end < 0 then max (len + end) 0 else min end len)
      in take (nat final) xs)"

text \<open>The score that \<^verbatim>\<open>forms.map\<close> attaches to a form.\<close>

definition score :: "real list \<Rightarrow> form \<Rightarrow> real" where
  "score promptEmbedding form =
     (case embedding form of
        Some e \<Rightarrow> cosineSimilarity promptEmbedding e
      | None \<Rightarrow> 0)"

text \<open>What a call of \<^verbatim>\<open>retrieveRelevantForms\<close> does: \<open>returned\<close> is the value of the promise
  (\<open>None\<close> when it rejects), \<open>fallback_logged\<close> tells whether the \<^verbatim>\<open>catch\<close> block wrote its
  \<^verbatim>\<open>console.error\<close> line, \<open>scored\<close> counts the calls of \<^verbatim>\<open>cosineSimilarity\<close>.\<close>

record retrieval =
  returned :: "form list option"
  fallback_logged :: bool
  scored :: nat

text \<open>\<^verbatim>\<open>Array.prototype.sort\<close> is stable; with the comparator
  \<^verbatim>\<open>(a, b) => b.similarity - a.similarity\<close> it sorts by the negated score.\<close>

definition retrieveRelevantForms :: "store \<Rightarrow> nat \<Rightarrow> string \<Rightarrow> int \<Rightarrow> retrieval" where
  "retrieveRelevantForms db uid prompt topK =
     (let promptEmbedding = generateEmbedding prompt
      in case find_with_embedding db uid of
           None \<Rightarrow>
             \<lparr>returned = find_recent db uid topK, fallback_logged = True, scored = 0\<rparr>
         | Some forms \<Rightarrow>
             if length forms = 0
             then \<lparr>returned = Some [], fallback_logged = False, scored = 0\<rparr>
             else
               let formsWithSimilarity = map (\<lambda>f. (f, score promptEmbedding f)) forms;
                   sorted = sort_key (\<lambda>item. - snd item) formsWithSimilarity
               in \<lparr>returned =
                     Some (map fst (filter (\<lambda>item. snd item > 0.1) (slice0 topK sorted))),
                   fallback_logged = False,
                   scored = length (filter (\<lambda>f. embedding f \<noteq> None) forms)\<rparr>)"

subsection \<open>Auxiliary notions for the proofs\<close>

text \<open>The sums that the loops compute, as sums over the index range.\<close>

definition sq_sum :: "real list \<Rightarrow> real" where
  "sq_sum xs = (\<Sum>i<length xs. xs ! i * xs ! i)"

definition dot :: "real list \<Rightarrow> real list \<Rightarrow> real" where
  "dot a b = (\<Sum>i<length a. a ! i * b ! i)"

subsection \<open>Sample data\<close>

text \<open>A small collection used to run the definitions: two forms of owner 7 whose vector is
  that of the text \<^verbatim>\<open>resume\<close> (the older one stored first), one form of owner 7 with an
  empty vector, one without a vector, and a form of owner 9.\<close>

abbreviation resume_old :: form where
  "resume_old \<equiv> \<lparr>form_id = 11, userId = 7, embedding = Some (simpleHashEmbedding ''resume''), createdAt = 100\<rparr>"

abbreviation resume_new :: form where
  "resume_new \<equiv> \<lparr>form_id = 12, userId = 7, embedding = Some (simpleHashEmbedding ''resume''), createdAt = 200\<rparr>"

abbreviation short_vector :: form where
  "short_vector \<equiv> \<lparr>form_id = 13, userId = 7, embedding = Some [], createdAt = 300\<rparr>"

abbreviation no_vector :: form where
  "no_vector \<equiv> \<lparr>form_id = 14, userId = 7, embedding = None, createdAt = 400\<rparr>"

abbreviation other_owner :: form where
  "other_owner \<equiv> \<lparr>form_id = 15, userId = 9, embedding = Some (simpleHashEmbedding ''resume''), createdAt = 500\<rparr>"

abbreviation sample_docs :: "form list" where
  "sample_docs \<equiv> [resume_old, resume_new, short_vector, no_vector, other_owner]"

abbreviation store_up :: store where
  "store_up \<equiv> \<lparr>docs = sample_docs, fetch_fails = False, recent_fails = False\<rparr>"

abbreviation store_fetch_down :: store where
  "store_fetch_down \<equiv> \<lparr>docs = sample_docs, fetch_fails = True, recent_fails = False\<rparr>"

abbreviation store_down :: store where
  "store_down \<equiv> \<lparr>docs = sample_docs, fetch_fails = True, recent_fails = True\<rparr>"

section \<open>Properties\<close>

subsection \<open>The similarity scorer\<close>

lemma cosine_fold_sums:
  "fold (cosine_step a b) [0..<n] (d, na, nb) =
     (d + (\<Sum>i<n. a ! i * b ! i), na + (\<Sum>i<n. a ! i * a ! i), nb + (\<Sum>i<n. b ! i * b ! i))"
  by (induction n) (simp_all add: cosine_step_def algebra_simps)



lemma foldl_squares:
  "foldl (\<lambda>sum val. sum + val * val) z xs = z + (\<Sum>i<length xs. xs ! i * xs ! i)"
proof (induction xs arbitrary: z)
  case Nil
  show ?case by simp
next
  case (Cons x xs)
  have "(\<Sum>i<Suc (length xs). (x # xs) ! i * (x # xs) ! i) = x * x + (\<Sum>i<length xs. xs ! i * xs ! i)"
    by (simp add: sum.lessThan_Suc_shift del: sum.lessThan_Suc)
  then have "(\<Sum>i<length (x # xs). (x # xs) ! i * (x # xs) ! i) = x * x + (\<Sum>i<length xs. xs ! i * xs ! i)"
    by simp
  then show ?case by (simp only: foldl_Cons Cons.IH add.assoc)
qed

lemma magnitude_sq_sum: "magnitude xs = sqrt (sq_sum xs)"
  by (simp add: magnitude_def foldl_squares sq_sum_def)

lemma sq_sum_nonneg: "0 \<le> sq_sum xs"
  by (simp add: sq_sum_def sum_nonneg)

lemma sq_sum_zero_iff: "sq_sum xs = 0 \<longleftrightarrow> (\<forall>x\<in>set xs. x = 0)"
proof -
  have "sq_sum xs = 0 \<longleftrightarrow> (\<forall>i<length xs. xs ! i * xs ! i = 0)"
    unfolding sq_sum_def by (subst sum_nonneg_eq_0_iff) auto
  also have "\<dots> \<longleftrightarrow> (\<forall>x\<in>set xs. x = 0)"
    by (simp add: all_set_conv_all_nth)
  finally show ?thesis .
qed

lemma cosine_eq:
  "length a = length b \<Longrightarrow>
   cosineSimilarity a b =
     (if sq_sum a = 0 \<or> sq_sum b = 0 then 0 else dot a b / (sqrt (sq_sum a) * sqrt (sq_sum b)))"
  by (simp add: cosineSimilarity_def cosine_fold_sums sq_sum_def dot_def)


lemma dot_self: "dot a a = sq_sum a"
  by (simp add: dot_def sq_sum_def)




lemma cosine_self: "sq_sum a \<noteq> 0 \<Longrightarrow> cosineSimilarity a a = 1"
  using sq_sum_nonneg [of a] by (simp add: cosine_eq dot_self)

lemma cosine_length_mismatch: "length a \<noteq> length b \<Longrightarrow> cosineSimilarity a b = 0"
  by (simp add: cosineSimilarity_def)

lemma cosine_zero_magnitude:
  "magnitude a = 0 \<or> magnitude b = 0 \<Longrightarrow> cosineSimilarity a b = 0"
proof (cases "length a = length b")
  case True
  assume "magnitude a = 0 \<or> magnitude b = 0"
  then have "sq_sum a = 0 \<or> sq_sum b = 0" by (simp add: magnitude_sq_sum)
  then show ?thesis by (simp add: cosine_eq [OF True])
next
  case False
  then show ?thesis by (simp add: cosineSimilarity_def)
qed


text \<open>
  Claim C8. \<^verbatim>\<open>cosineSimilarity\<close> is a total function on pairs of vectors (the model has no
  failing branch, and the loop reads only indices below the common length): on vectors of
  different lengths it is 0, and when either vector has zero magnitude it is 0.
\<close>

theorem cosineSimilarity_total:
  "(length a \<noteq> length b \<longrightarrow> cosineSimilarity a b = 0) \<and>
   (magnitude a = 0 \<or> magnitude b = 0 \<longrightarrow> cosineSimilarity a b = 0)"
  using cosine_length_mismatch cosine_zero_magnitude by blast

theorem cosineSimilarity_total_witness:
  "length [1, 2 :: real] \<noteq> length [1 :: real] \<and> cosineSimilarity [1, 2] [1] = 0 \<and>
   magnitude [0, 0] = 0 \<and> cosineSimilarity [0, 0] [3, 4] = 0"
  using cosineSimilarity_total [of "[1, 2]" "[1]"] cosineSimilarity_total [of "[0, 0]" "[3, 4]"]
  by (simp add: magnitude_def)



subsection \<open>The text vectorizer\<close>



lemma split_from_nonempty: "split_from cur rest \<noteq> []"
  by (induction cur rest rule: split_from.induct) simp_all

lemma length_accumulate: "length (accumulate ws i e) = length e"
  by (induction ws i e rule: accumulate.induct) (simp_all add: Let_def)

lemma accumulate_mono:
  "j < length e \<Longrightarrow> e ! j \<le> accumulate ws i e ! j"
proof (induction ws i e rule: accumulate.induct)
  case (1 index embedding)
  then show ?case by simp
next
  case (2 word words index embedding)
  let ?idx = "nat \<bar>sint (word_hash word)\<bar> mod length embedding"
  let ?e = "embedding[?idx := embedding ! ?idx + 1 / (real index + 1)]"
  have "embedding ! j \<le> ?e ! j"
    using 2(2) by (cases "j = ?idx") simp_all
  also have "\<dots> \<le> accumulate words (index + 1) ?e ! j"
    using 2(1) [of ?idx] 2(2) by simp
  finally show ?case by (simp add: Let_def)
qed

lemma accumulate_positive:
  assumes "ws \<noteq> []" "0 < length e" "\<forall>x\<in>set e. 0 \<le> x"
  shows "\<exists>j<length e. 0 < accumulate ws i e ! j"
proof (cases ws)
  case Nil
  with assms show ?thesis by simp
next
  case (Cons word words)
  let ?idx = "nat \<bar>sint (word_hash word)\<bar> mod length e"
  let ?e = "e[?idx := e ! ?idx + 1 / (real i + 1)]"
  have idx: "?idx < length e" using assms(2) by simp
  then have "0 \<le> e ! ?idx" using assms(3) by simp
  then have "0 < ?e ! ?idx" using idx by (simp add: add_nonneg_pos)
  also have "\<dots> \<le> accumulate words (i + 1) ?e ! ?idx"
    using accumulate_mono [of ?idx ?e words "i + 1"] idx by simp
  finally show ?thesis using idx Cons by (auto simp: Let_def)
qed

lemma sq_sum_pos: "j < length xs \<Longrightarrow> xs ! j \<noteq> 0 \<Longrightarrow> 0 < sq_sum xs"
  using sq_sum_nonneg [of xs] sq_sum_zero_iff [of xs] by (auto simp: less_le dest: nth_mem)

lemma sq_sum_scale: "sq_sum (map (\<lambda>val. val / m) xs) = sq_sum xs / (m * m)"
  by (simp add: sq_sum_def sum_divide_distrib)

lemma magnitude_normalised:
  assumes "0 < magnitude xs"
  shows "magnitude (map (\<lambda>val. val / magnitude xs) xs) = 1"
proof -
  have "0 < sq_sum xs" using assms by (simp add: magnitude_sq_sum)
  then have "sq_sum xs / (sqrt (sq_sum xs) * sqrt (sq_sum xs)) = 1" by simp
  then show ?thesis by (simp add: magnitude_sq_sum sq_sum_scale)
qed

lemma accumulated_magnitude_pos:
  "0 < magnitude (accumulate (split_ws text) 0 (replicate 128 0))"
proof -
  obtain j where "j < 128" "0 < accumulate (split_ws text) 0 (replicate 128 0) ! j"
    using accumulate_positive [of "split_ws text" "replicate 128 0" 0]
    by (auto simp: split_ws_def split_from_nonempty)
  then have "0 < sq_sum (accumulate (split_ws text) 0 (replicate 128 0))"
    using sq_sum_pos [of j "accumulate (split_ws text) 0 (replicate 128 0)"]
    by (simp add: length_accumulate)
  then show ?thesis by (simp add: magnitude_sq_sum)
qed

lemma simpleHashEmbedding_eq:
  "simpleHashEmbedding text =
     map (\<lambda>val. val / magnitude (accumulate (split_ws (toLowerCase text)) 0 (replicate 128 0)))
       (accumulate (split_ws (toLowerCase text)) 0 (replicate 128 0))"
  by (simp add: simpleHashEmbedding_def Let_def accumulated_magnitude_pos)

lemma length_simpleHashEmbedding: "length (simpleHashEmbedding text) = 128"
  by (simp add: simpleHashEmbedding_eq length_accumulate)

lemma magnitude_simpleHashEmbedding: "magnitude (simpleHashEmbedding text) = 1"
  by (simp only: simpleHashEmbedding_eq magnitude_normalised [OF accumulated_magnitude_pos])

lemma sq_sum_simpleHashEmbedding: "sq_sum (simpleHashEmbedding text) = 1"
  using magnitude_simpleHashEmbedding [of "text"] by (simp add: magnitude_sq_sum)


lemma cosine_same_embedding:
  "cosineSimilarity (simpleHashEmbedding text) (simpleHashEmbedding text) = 1"
  by (rule cosine_self) (simp add: sq_sum_simpleHashEmbedding)










subsection \<open>The relevance retriever\<close>

lemma insort_key_pairs:
  "insort_key (\<lambda>item. - snd item) (x, s x) (map (\<lambda>f. (f, s f)) xs) =
   map (\<lambda>f. (f, s f)) (insort_key (\<lambda>f. - s f) x xs)"
  by (induction xs) simp_all

lemma sort_key_pairs:
  "sort_key (\<lambda>item. - snd item) (map (\<lambda>f. (f, s f)) xs) =
   map (\<lambda>f. (f, s f)) (sort_key (\<lambda>f. - s f) xs)"
  by (induction xs) (simp_all add: insort_key_pairs)

lemma slice0_map: "slice0 k (map g xs) = map g (slice0 k xs)"
  by (simp add: slice0_def Let_def take_map)

lemma slice0_take: "\<exists>n. slice0 k xs = take n xs"
  by (auto simp: slice0_def Let_def)

lemma slice0_nonneg: "0 \<le> k \<Longrightarrow> slice0 k xs = take (nat k) xs"
  by (auto simp: slice0_def Let_def min_def)

lemma slice0_neg: "k < 0 \<Longrightarrow> slice0 k xs = take (length xs - nat (- k)) xs"
proof -
  assume "k < 0"
  then have "nat (max (int (length xs) + k) 0) = length xs - nat (- k)" by linarith
  with \<open>k < 0\<close> show ?thesis by (simp add: slice0_def Let_def)
qed

lemma primary_returned:
  assumes "find_with_embedding db uid = Some forms"
  shows "returned (retrieveRelevantForms db uid prompt k) =
           Some (filter (\<lambda>f. 0.1 < score (generateEmbedding prompt) f)
                   (slice0 k (sort_key (\<lambda>f. - score (generateEmbedding prompt) f) forms)))"
proof (cases "forms = []")
  case True
  with assms show ?thesis
    by (simp add: retrieveRelevantForms_def slice0_def)
next
  case False
  with assms show ?thesis
    by (simp add: retrieveRelevantForms_def Let_def sort_key_pairs slice0_map filter_map o_def)
qed

lemma primary_not_logged:
  "find_with_embedding db uid = Some forms \<Longrightarrow>
   \<not> fallback_logged (retrieveRelevantForms db uid prompt k)"
  by (simp add: retrieveRelevantForms_def Let_def)

lemma fetched_have_embedding:
  "find_with_embedding db uid = Some forms \<Longrightarrow> f \<in> set forms \<Longrightarrow> embedding f \<noteq> None"
  by (auto simp: find_with_embedding_def split: if_splits dest: in_set_takeD)

lemma fetched_owner:
  "find_with_embedding db uid = Some forms \<Longrightarrow> f \<in> set forms \<Longrightarrow> userId f = uid"
  by (auto simp: find_with_embedding_def split: if_splits dest: in_set_takeD)

lemma primary_scored:
  assumes "find_with_embedding db uid = Some forms"
  shows "scored (retrieveRelevantForms db uid prompt k) = length forms"
proof -
  have "filter (\<lambda>f. embedding f \<noteq> None) forms = forms"
    using fetched_have_embedding [OF assms] by (simp add: filter_id_conv)
  with assms show ?thesis
    by (cases "forms = []") (simp_all add: retrieveRelevantForms_def Let_def)
qed

lemma fallback_result:
  "find_with_embedding db uid = None \<Longrightarrow>
   retrieveRelevantForms db uid prompt k =
     \<lparr>returned = find_recent db uid k, fallback_logged = True, scored = 0\<rparr>"
  by (simp add: retrieveRelevantForms_def)

lemma sorted_desc_filter_nil:
  "sorted (map (\<lambda>f. - s f) (x # xs)) \<Longrightarrow> \<not> (c :: real) < s x \<Longrightarrow> filter (\<lambda>f. c < s f) xs = []"
  by (fastforce simp: filter_empty_conv)

lemma filter_take_sorted_desc:
  "sorted (map (\<lambda>f. - s f) xs) \<Longrightarrow>
   filter (\<lambda>f. (c :: real) < s f) (take n xs) = take n (filter (\<lambda>f. c < s f) xs)"
proof (induction xs arbitrary: n)
  case Nil
  show ?case by simp
next
  case (Cons x xs)
  show ?case
  proof (cases "c < s x")
    case True
    with Cons show ?thesis by (cases n) simp_all
  next
    case False
    have nil: "filter (\<lambda>f. c < s f) xs = []"
      using sorted_desc_filter_nil [OF Cons.prems False] .
    then have "filter (\<lambda>f. c < s f) (take m xs) = []" for m
      by (auto simp: filter_empty_conv dest: in_set_takeD)
    with nil False show ?thesis by (cases n) simp_all
  qed
qed

lemma sorted_desc_wrt:
  "sorted (map (\<lambda>f. - s f) xs) = sorted_wrt (\<lambda>f g. (s g :: real) \<le> s f) xs"
  by (simp add: sorted_map)

lemma score_same_text:
  "embedding f = Some (simpleHashEmbedding t) \<Longrightarrow> score (generateEmbedding t) f = 1"
  by (simp add: score_def generateEmbedding_def cosine_same_embedding)

lemma score_short_vector:
  "embedding f = Some [] \<Longrightarrow> score (generateEmbedding t) f = 0"
  by (simp add: score_def generateEmbedding_def cosine_length_mismatch length_simpleHashEmbedding)

lemma sample_fetch:
  "find_with_embedding store_up 7 = Some [resume_old, resume_new, short_vector]"
  by (simp add: find_with_embedding_def)

lemma sample_ranked:
  "sort_key (\<lambda>f. - score (generateEmbedding ''resume'') f) [resume_old, resume_new, short_vector]
     = [resume_old, resume_new, short_vector]"
  by (simp add: score_same_text score_short_vector)

lemma sample_recent:
  "sort_key (\<lambda>f. - createdAt f) (filter (\<lambda>f. userId f = 7) sample_docs)
     = [no_vector, short_vector, resume_new, resume_old]"
  by simp

lemma sample_retrieve_5:
  "returned (retrieveRelevantForms store_up 7 ''resume'' 5) = Some [resume_old, resume_new]"
  by (simp add: primary_returned [OF sample_fetch] sample_ranked slice0_def
        score_same_text score_short_vector)

lemma sample_retrieve_neg:
  "returned (retrieveRelevantForms store_up 7 ''resume'' (- 1)) = Some [resume_old, resume_new]"
  by (simp add: primary_returned [OF sample_fetch] sample_ranked slice0_def
        score_same_text score_short_vector)

lemma sample_fallback:
  "returned (retrieveRelevantForms store_fetch_down 7 ''resume'' 2) = Some [no_vector, short_vector]"
  by (simp add: retrieveRelevantForms_def find_with_embedding_def find_recent_def limit_def)

lemma sample_down:
  "returned (retrieveRelevantForms store_down 7 ''resume'' 2) = None"
  by (simp add: retrieveRelevantForms_def find_with_embedding_def find_recent_def limit_def)

lemma sorted_desc_sort_key: "sorted (map (\<lambda>f. - (s f :: real)) (sort_key (\<lambda>f. - s f) xs))"
  by (rule sorted_sort_key)

lemma ranked_prefix:
  "find_with_embedding db uid = Some forms \<Longrightarrow>
   \<exists>n. returned (retrieveRelevantForms db uid prompt k) =
     Some (take n (filter (\<lambda>f. 0.1 < score (generateEmbedding prompt) f)
             (sort_key (\<lambda>f. - score (generateEmbedding prompt) f) forms)))"
proof -
  assume a: "find_with_embedding db uid = Some forms"
  let ?s = "score (generateEmbedding prompt)"
  obtain n where "slice0 k (sort_key (\<lambda>f. - ?s f) forms) = take n (sort_key (\<lambda>f. - ?s f) forms)"
    using slice0_take by blast
  then show ?thesis
    using filter_take_sorted_desc [OF sorted_desc_sort_key, of "0.1" ?s n forms]
    by (simp only: primary_returned [OF a]) blast
qed

text \<open>
  Claim C1. When the candidate fetch succeeds and \<open>k\<close> is not negative, the call returns
  at most \<open>k\<close> forms, sorted by descending score, each with a score above 0.1; they are
  the first \<open>k\<close> of the candidates above the threshold in ranked order, so none of these
  is left out while fewer than \<open>k\<close> are returned.
\<close>

theorem top_k_contract:
  assumes "find_with_embedding db uid = Some forms" and "0 \<le> k"
  shows "\<exists>rs. returned (retrieveRelevantForms db uid prompt k) = Some rs \<and>
     length rs \<le> nat k \<and>
     sorted_wrt (\<lambda>f g. score (generateEmbedding prompt) g \<le> score (generateEmbedding prompt) f) rs \<and>
     (\<forall>f\<in>set rs. 0.1 < score (generateEmbedding prompt) f) \<and>
     rs = take (nat k) (filter (\<lambda>f. 0.1 < score (generateEmbedding prompt) f)
                          (sort_key (\<lambda>f. - score (generateEmbedding prompt) f) forms)) \<and>
     length rs = min (nat k) (length (filter (\<lambda>f. 0.1 < score (generateEmbedding prompt) f) forms))"
proof -
  let ?s = "score (generateEmbedding prompt)"
  let ?ranked = "sort_key (\<lambda>f. - ?s f) forms"
  let ?rs = "take (nat k) (filter (\<lambda>f. 0.1 < ?s f) ?ranked)"
  have ret: "returned (retrieveRelevantForms db uid prompt k) = Some ?rs"
    using filter_take_sorted_desc [OF sorted_desc_sort_key, of "0.1" ?s "nat k" forms]
    by (simp only: primary_returned [OF assms(1)] slice0_nonneg [OF assms(2)])
  have "sorted (map (\<lambda>f. - ?s f) (filter (\<lambda>f. 0.1 < ?s f) ?ranked))"
    by (rule sorted_filter) (rule sorted_desc_sort_key)
  then have "sorted (map (\<lambda>f. - ?s f) ?rs)"
    by (simp add: take_map [symmetric] sorted_wrt_take del: take_map)
  then have srt: "sorted_wrt (\<lambda>f g. ?s g \<le> ?s f) ?rs"
    by (simp only: sorted_desc_wrt)
  have above: "\<forall>f\<in>set ?rs. 0.1 < ?s f"
    by (auto dest: in_set_takeD)
  have "length (filter (\<lambda>f. 0.1 < ?s f) ?ranked) = length (filter (\<lambda>f. 0.1 < ?s f) forms)"
    by (simp only: filter_sort length_sort)
  then have len: "length ?rs = min (nat k) (length (filter (\<lambda>f. 0.1 < ?s f) forms))"
    by (simp add: min.commute)
  have "length ?rs \<le> nat k" by simp
  with ret srt above len show ?thesis by blast
qed

theorem top_k_contract_witness:
  "find_with_embedding store_up 7 = Some [resume_old, resume_new, short_vector] \<and> (0 :: int) \<le> 2 \<and>
   returned (retrieveRelevantForms store_up 7 ''resume'' 2) = Some [resume_old, resume_new] \<and>
   0.1 < score (generateEmbedding ''resume'') resume_old \<and>
   0.1 < score (generateEmbedding ''resume'') resume_new"
proof -
  have z: "(0 :: int) \<le> 2" by simp
  from top_k_contract [OF sample_fetch z, of "''resume''"]
  have "returned (retrieveRelevantForms store_up 7 ''resume'' 2) = Some [resume_old, resume_new]"
    by (auto simp: sample_ranked score_same_text score_short_vector)
  moreover have "0.1 < score (generateEmbedding ''resume'') resume_old"
    "0.1 < score (generateEmbedding ''resume'') resume_new"
    by (simp_all add: score_same_text)
  ultimately show ?thesis using sample_fetch z by blast
qed

lemma limit_pos: "0 < k \<Longrightarrow> limit k xs = take (nat k) xs"
  by (simp add: limit_def)

lemma set_limit: "set (limit k xs) \<subseteq> set xs"
  by (auto simp: limit_def dest: in_set_takeD)

lemma sorted_recent:
  "sorted_wrt (\<lambda>f g. createdAt g \<le> createdAt f) (take n (sort_key (\<lambda>f. - createdAt f) xs))"
proof -
  have "sorted (map (\<lambda>f. - createdAt f) (sort_key (\<lambda>f. - createdAt f) xs))"
    by (rule sorted_sort_key)
  then have "sorted_wrt (\<lambda>f g. createdAt g \<le> createdAt f) (sort_key (\<lambda>f. - createdAt f) xs)"
    by (simp add: sorted_map)
  then show ?thesis by (rule sorted_wrt_take)
qed

lemma fetch_None_iff: "find_with_embedding db uid = None \<longleftrightarrow> fetch_fails db"
  by (simp add: find_with_embedding_def)

lemma below_threshold_empty:
  assumes "find_with_embedding db uid = Some forms"
    and "\<forall>f\<in>set forms. score (generateEmbedding prompt) f \<le> 0.1"
  shows "returned (retrieveRelevantForms db uid prompt k) = Some []"
proof -
  obtain n where "returned (retrieveRelevantForms db uid prompt k) =
     Some (take n (filter (\<lambda>f. 0.1 < score (generateEmbedding prompt) f)
             (sort_key (\<lambda>f. - score (generateEmbedding prompt) f) forms)))"
    using ranked_prefix [OF assms(1)] by blast
  moreover have "filter (\<lambda>f. 0.1 < score (generateEmbedding prompt) f)
             (sort_key (\<lambda>f. - score (generateEmbedding prompt) f) forms) = []"
    using assms(2) by (auto simp: filter_empty_conv)
  ultimately show ?thesis by simp
qed

text \<open>
  Claim C2, as the code has it. When the candidate fetch throws and the query of the
  \<^verbatim>\<open>catch\<close> block succeeds, a call with \<open>k > 0\<close> logs the fallback and returns the \<open>k\<close>
  most recent forms of the owner, newest first; when that query throws as well, the promise
  rejects. When the fetch succeeds and no candidate scores above 0.1, the result is empty and
  nothing is logged.
\<close>

theorem fallback_distinct:
  "(fetch_fails db \<and> \<not> recent_fails db \<and> 0 < k \<longrightarrow>
      fallback_logged (retrieveRelevantForms db uid prompt k) \<and>
      (\<exists>rs. returned (retrieveRelevantForms db uid prompt k) = Some rs \<and>
         length rs \<le> nat k \<and>
         sorted_wrt (\<lambda>f g. createdAt g \<le> createdAt f) rs \<and>
         (\<forall>f\<in>set rs. userId f = uid) \<and>
         rs = take (nat k) (sort_key (\<lambda>f. - createdAt f) (filter (\<lambda>f. userId f = uid) (docs db))))) \<and>
   (fetch_fails db \<and> recent_fails db \<longrightarrow>
      returned (retrieveRelevantForms db uid prompt k) = None) \<and>
   (find_with_embedding db uid = Some forms \<and>
    (\<forall>f\<in>set forms. score (generateEmbedding prompt) f \<le> 0.1) \<longrightarrow>
      returned (retrieveRelevantForms db uid prompt k) = Some [] \<and>
      \<not> fallback_logged (retrieveRelevantForms db uid prompt k))"
proof (intro conjI impI)
  assume a: "fetch_fails db \<and> \<not> recent_fails db \<and> 0 < k"
  then have none: "find_with_embedding db uid = None" by (simp add: fetch_None_iff)
  show "fallback_logged (retrieveRelevantForms db uid prompt k)"
    by (simp add: fallback_result [OF none])
  let ?rs = "take (nat k) (sort_key (\<lambda>f. - createdAt f) (filter (\<lambda>f. userId f = uid) (docs db)))"
  have "returned (retrieveRelevantForms db uid prompt k) = Some ?rs"
    using a by (simp add: fallback_result [OF none] find_recent_def limit_pos)
  moreover have "length ?rs \<le> nat k" by simp
  moreover have "sorted_wrt (\<lambda>f g. createdAt g \<le> createdAt f) ?rs" by (rule sorted_recent)
  moreover have "\<forall>f\<in>set ?rs. userId f = uid" by (auto dest: in_set_takeD)
  ultimately show "\<exists>rs. returned (retrieveRelevantForms db uid prompt k) = Some rs \<and>
         length rs \<le> nat k \<and>
         sorted_wrt (\<lambda>f g. createdAt g \<le> createdAt f) rs \<and>
         (\<forall>f\<in>set rs. userId f = uid) \<and>
         rs = take (nat k) (sort_key (\<lambda>f. - createdAt f) (filter (\<lambda>f. userId f = uid) (docs db)))"
    by blast
next
  assume a: "fetch_fails db \<and> recent_fails db"
  then have none: "find_with_embedding db uid = None" by (simp add: fetch_None_iff)
  show "returned (retrieveRelevantForms db uid prompt k) = None"
    using a by (simp add: fallback_result [OF none] find_recent_def)
next
  assume a: "find_with_embedding db uid = Some forms \<and>
    (\<forall>f\<in>set forms. score (generateEmbedding prompt) f \<le> 0.1)"
  then show "returned (retrieveRelevantForms db uid prompt k) = Some []"
    using below_threshold_empty by blast
  from a show "\<not> fallback_logged (retrieveRelevantForms db uid prompt k)"
    using primary_not_logged by blast
qed

lemma sample_fetch_short:
  "find_with_embedding \<lparr>docs = [short_vector, no_vector], fetch_fails = False, recent_fails = False\<rparr> 7
     = Some [short_vector]"
  by (simp add: find_with_embedding_def)

theorem fallback_distinct_witness:
  "fetch_fails store_fetch_down \<and> \<not> recent_fails store_fetch_down \<and> (0 :: int) < 2 \<and>
   fallback_logged (retrieveRelevantForms store_fetch_down 7 ''resume'' 2) \<and>
   returned (retrieveRelevantForms store_fetch_down 7 ''resume'' 2) = Some [no_vector, short_vector] \<and>
   fetch_fails store_down \<and> recent_fails store_down \<and>
   returned (retrieveRelevantForms store_down 7 ''resume'' 2) = None \<and>
   find_with_embedding \<lparr>docs = [short_vector, no_vector], fetch_fails = False, recent_fails = False\<rparr> 7
     = Some [short_vector] \<and>
   score (generateEmbedding ''resume'') short_vector \<le> 0.1 \<and>
   returned (retrieveRelevantForms
      \<lparr>docs = [short_vector, no_vector], fetch_fails = False, recent_fails = False\<rparr> 7 ''resume'' 2) = Some [] \<and>
   \<not> fallback_logged (retrieveRelevantForms
      \<lparr>docs = [short_vector, no_vector], fetch_fails = False, recent_fails = False\<rparr> 7 ''resume'' 2)"
proof -
  have low: "\<forall>f\<in>set [short_vector]. score (generateEmbedding ''resume'') f \<le> 0.1"
    by (simp add: score_short_vector)
  have "fallback_logged (retrieveRelevantForms store_fetch_down 7 ''resume'' 2) \<and>
        returned (retrieveRelevantForms store_fetch_down 7 ''resume'' 2) = Some [no_vector, short_vector]"
    using fallback_distinct [of store_fetch_down 2 7 "''resume''" "[]"] by (auto simp: sample_recent)
  moreover have "returned (retrieveRelevantForms store_down 7 ''resume'' 2) = None"
    using fallback_distinct [of store_down 2 7 "''resume''" "[]"] by simp
  moreover have "returned (retrieveRelevantForms
      \<lparr>docs = [short_vector, no_vector], fetch_fails = False, recent_fails = False\<rparr> 7 ''resume'' 2) = Some [] \<and>
   \<not> fallback_logged (retrieveRelevantForms
      \<lparr>docs = [short_vector, no_vector], fetch_fails = False, recent_fails = False\<rparr> 7 ''resume'' 2)"
    using fallback_distinct [of "\<lparr>docs = [short_vector, no_vector], fetch_fails = False, recent_fails = False\<rparr>"
        2 7 "''resume''" "[short_vector]"] sample_fetch_short low by blast
  ultimately show ?thesis using sample_fetch_short low by simp
qed

text \<open>
  Claim C2 as stated fails when the store is down for both queries: the query in the
  \<^verbatim>\<open>catch\<close> block is not guarded, and its failure reaches the caller.
\<close>

theorem fallback_propagates_counterexample:
  "fetch_fails store_down \<and> returned (retrieveRelevantForms store_down 7 ''resume'' 2) = None"
  by (simp add: sample_down)

text \<open>
  Claim C3, as the code has it. The code has no test of \<open>k\<close>. After a successful fetch a
  call with \<open>k = 0\<close> returns the empty sequence, but only after scoring every fetched
  candidate; with a negative \<open>k\<close> the slice drops the last \<open>-k\<close> entries of the ranked list
  and the rest is filtered by the threshold.
\<close>

theorem nonpositive_k:
  assumes "find_with_embedding db uid = Some forms"
  shows "returned (retrieveRelevantForms db uid prompt 0) = Some [] \<and>
     \<not> fallback_logged (retrieveRelevantForms db uid prompt 0) \<and>
     scored (retrieveRelevantForms db uid prompt 0) = length forms \<and>
     (k < 0 \<longrightarrow>
        returned (retrieveRelevantForms db uid prompt k) =
          Some (filter (\<lambda>f. 0.1 < score (generateEmbedding prompt) f)
                  (take (length forms - nat (- k))
                     (sort_key (\<lambda>f. - score (generateEmbedding prompt) f) forms))))"
proof (intro conjI impI)
  show "returned (retrieveRelevantForms db uid prompt 0) = Some []"
    by (simp add: primary_returned [OF assms] slice0_def)
  show "\<not> fallback_logged (retrieveRelevantForms db uid prompt 0)"
    by (rule primary_not_logged [OF assms])
  show "scored (retrieveRelevantForms db uid prompt 0) = length forms"
    by (rule primary_scored [OF assms])
next
  assume "k < 0"
  then show "returned (retrieveRelevantForms db uid prompt k) =
          Some (filter (\<lambda>f. 0.1 < score (generateEmbedding prompt) f)
                  (take (length forms - nat (- k))
                     (sort_key (\<lambda>f. - score (generateEmbedding prompt) f) forms)))"
    using slice0_neg [of k "sort_key (\<lambda>f. - score (generateEmbedding prompt) f) forms"]
    by (simp add: primary_returned [OF assms])
qed

theorem nonpositive_k_witness:
  "find_with_embedding store_up 7 = Some [resume_old, resume_new, short_vector] \<and>
   returned (retrieveRelevantForms store_up 7 ''resume'' 0) = Some [] \<and>
   \<not> fallback_logged (retrieveRelevantForms store_up 7 ''resume'' 0) \<and>
   scored (retrieveRelevantForms store_up 7 ''resume'' 0) = 3 \<and>
   (- 2 :: int) < 0 \<and>
   returned (retrieveRelevantForms store_up 7 ''resume'' (- 2)) = Some [resume_old]"
  using nonpositive_k [OF sample_fetch, of "''resume''" "- 2"] sample_fetch
  by (simp add: sample_ranked score_same_text score_short_vector)

text \<open>
  Claim C3 as stated fails at \<open>k = -1\<close>: two of the three candidates are returned. At
  \<open>k = 0\<close> the three candidates are scored all the same.
\<close>

theorem negative_k_counterexample:
  "returned (retrieveRelevantForms store_up 7 ''resume'' (- 1)) = Some [resume_old, resume_new] \<and>
   scored (retrieveRelevantForms store_up 7 ''resume'' 0) = 3"
  by (simp add: sample_retrieve_neg primary_scored [OF sample_fetch])

lemma filter_take_prefix:
  "filter P (take n xs) = take (length (filter P (take n xs))) (filter P xs)"
proof (induction xs arbitrary: n)
  case Nil
  show ?case by simp
next
  case (Cons x xs)
  show ?case
  proof (cases n)
    case 0
    then show ?thesis by simp
  next
    case (Suc m)
    with Cons [of m] show ?thesis by simp
  qed
qed

lemma same_score_fetch_order:
  "filter (\<lambda>f. s f = (v :: real)) (sort_key (\<lambda>f. - s f) xs) = filter (\<lambda>f. s f = v) xs"
  using sort_key_stable [of "\<lambda>f. - s f" "- v" xs] by simp

text \<open>
  Claim C4, as the code has it. After a successful fetch the result is sorted by descending
  score, and the returned forms of any one score are an initial segment of the fetched
  candidates of that score, in the order of the fetch: the stable sort never reads
  \<^verbatim>\<open>createdAt\<close>. The model is a function of the store and the arguments, so equal inputs
  give the same sequence.
\<close>

theorem ties_keep_fetch_order:
  assumes "find_with_embedding db uid = Some forms"
  shows "\<exists>rs. returned (retrieveRelevantForms db uid prompt k) = Some rs \<and>
     sorted_wrt (\<lambda>f g. score (generateEmbedding prompt) g \<le> score (generateEmbedding prompt) f) rs \<and>
     (\<forall>v. filter (\<lambda>f. score (generateEmbedding prompt) f = v) rs =
          take (length (filter (\<lambda>f. score (generateEmbedding prompt) f = v) rs))
            (filter (\<lambda>f. score (generateEmbedding prompt) f = v) forms))"
proof -
  let ?s = "score (generateEmbedding prompt)"
  let ?R = "filter (\<lambda>f. 0.1 < ?s f) (sort_key (\<lambda>f. - ?s f) forms)"
  obtain n where ret: "returned (retrieveRelevantForms db uid prompt k) = Some (take n ?R)"
    using ranked_prefix [OF assms] by blast
  have "sorted (map (\<lambda>f. - ?s f) ?R)"
    by (rule sorted_filter) (rule sorted_desc_sort_key)
  then have "sorted_wrt (\<lambda>f g. ?s g \<le> ?s f) ?R"
    by (simp only: sorted_desc_wrt)
  then have srt: "sorted_wrt (\<lambda>f g. ?s g \<le> ?s f) (take n ?R)"
    by (rule sorted_wrt_take)
  have ties: "filter (\<lambda>f. ?s f = v) (take n ?R) =
          take (length (filter (\<lambda>f. ?s f = v) (take n ?R))) (filter (\<lambda>f. ?s f = v) forms)" for v
  proof (cases "0.1 < v")
    case True
    have "filter (\<lambda>f. ?s f = v) ?R = filter (\<lambda>f. 0.1 < ?s f) (filter (\<lambda>f. ?s f = v) forms)"
      by (simp only: filter_filter conj_commute same_score_fetch_order [symmetric, of ?s v forms])
    also have "\<dots> = filter (\<lambda>f. ?s f = v) forms"
      by (induction forms) (use True in auto)
    finally have "filter (\<lambda>f. ?s f = v) ?R = filter (\<lambda>f. ?s f = v) forms" .
    then show ?thesis using filter_take_prefix [of "\<lambda>f. ?s f = v" n ?R] by simp
  next
    case False
    then have "filter (\<lambda>f. ?s f = v) (take n ?R) = []"
      by (auto simp: filter_empty_conv dest!: in_set_takeD)
    then show ?thesis by simp
  qed
  from ret srt ties show ?thesis by blast
qed

theorem ties_keep_fetch_order_witness:
  "find_with_embedding store_up 7 = Some [resume_old, resume_new, short_vector] \<and>
   returned (retrieveRelevantForms store_up 7 ''resume'' 5) = Some [resume_old, resume_new] \<and>
   filter (\<lambda>f. score (generateEmbedding ''resume'') f = 1) [resume_old, resume_new] =
     take (length (filter (\<lambda>f. score (generateEmbedding ''resume'') f = 1) [resume_old, resume_new]))
       (filter (\<lambda>f. score (generateEmbedding ''resume'') f = 1) [resume_old, resume_new, short_vector])"
  using ties_keep_fetch_order [OF sample_fetch, of "''resume''" 5] sample_fetch
  by (auto simp: sample_retrieve_5)

text \<open>
  Claim C4 as stated fails on two candidates with the same score: the older one was fetched
  first and is returned first.
\<close>

theorem tie_order_counterexample:
  "returned (retrieveRelevantForms store_up 7 ''resume'' 5) = Some [resume_old, resume_new] \<and>
   score (generateEmbedding ''resume'') resume_old = score (generateEmbedding ''resume'') resume_new \<and>
   createdAt resume_old < createdAt resume_new"
  by (simp add: sample_retrieve_5 score_same_text)

lemma primary_subset:
  assumes "find_with_embedding db uid = Some forms"
    and "returned (retrieveRelevantForms db uid prompt k) = Some rs"
  shows "set rs \<subseteq> set forms"
proof -
  obtain n where "slice0 k (sort_key (\<lambda>f. - score (generateEmbedding prompt) f) forms)
      = take n (sort_key (\<lambda>f. - score (generateEmbedding prompt) f) forms)"
    using slice0_take by blast
  moreover have "set (take n (sort_key (\<lambda>f. - score (generateEmbedding prompt) f) forms)) \<subseteq> set forms"
    using set_take_subset [of n "sort_key (\<lambda>f. - score (generateEmbedding prompt) f) forms"] by simp
  ultimately show ?thesis
    using assms(2) by (auto simp: primary_returned [OF assms(1)])
qed

lemma fallback_subset:
  assumes "find_with_embedding db uid = None"
    and "returned (retrieveRelevantForms db uid prompt k) = Some rs"
  shows "set rs \<subseteq> set (filter (\<lambda>f. userId f = uid) (docs db))"
proof -
  from assms have "rs = limit k (sort_key (\<lambda>f. - createdAt f) (filter (\<lambda>f. userId f = uid) (docs db)))"
    by (simp add: fallback_result find_recent_def split: if_splits)
  then show ?thesis
    using set_limit [of k "sort_key (\<lambda>f. - createdAt f) (filter (\<lambda>f. userId f = uid) (docs db))"]
    by simp
qed

text \<open>
  Claim C5, as the code has it. After a successful fetch every returned form has a vector.
\<close>

theorem primary_has_vector:
  assumes "find_with_embedding db uid = Some forms"
  shows "\<exists>rs. returned (retrieveRelevantForms db uid prompt k) = Some rs \<and>
     (\<forall>f\<in>set rs. embedding f \<noteq> None)"
proof -
  obtain rs where rs: "returned (retrieveRelevantForms db uid prompt k) = Some rs"
    by (simp add: primary_returned [OF assms])
  then have "set rs \<subseteq> set forms" by (rule primary_subset [OF assms])
  then have "\<forall>f\<in>set rs. embedding f \<noteq> None"
    using fetched_have_embedding [OF assms] by blast
  with rs show ?thesis by blast
qed

theorem primary_has_vector_witness:
  "find_with_embedding store_up 7 = Some [resume_old, resume_new, short_vector] \<and>
   returned (retrieveRelevantForms store_up 7 ''resume'' 5) = Some [resume_old, resume_new] \<and>
   embedding resume_old \<noteq> None \<and> embedding resume_new \<noteq> None"
  using primary_has_vector [OF sample_fetch, of "''resume''" 5] sample_fetch
  by (simp add: sample_retrieve_5)

text \<open>
  Claim C5 as stated fails on the fallback path: its query selects by owner only, and the most
  recent form of the sample has no vector.
\<close>

theorem fallback_without_vector_counterexample:
  "returned (retrieveRelevantForms store_fetch_down 7 ''resume'' 2) = Some [no_vector, short_vector] \<and>
   embedding no_vector = None"
  by (simp add: sample_fallback)

text \<open>
  Claim C6. Whatever the call returns, on the primary path and on the fallback path, belongs
  to the owner asked for.
\<close>

theorem owner_scoping:
  "returned (retrieveRelevantForms db uid prompt k) = Some rs \<Longrightarrow> \<forall>f\<in>set rs. userId f = uid"
proof (cases "find_with_embedding db uid")
  case None
  assume "returned (retrieveRelevantForms db uid prompt k) = Some rs"
  from fallback_subset [OF None this] show ?thesis by auto
next
  case (Some forms)
  assume "returned (retrieveRelevantForms db uid prompt k) = Some rs"
  from primary_subset [OF Some this] fetched_owner [OF Some] show ?thesis by blast
qed

theorem owner_scoping_witness:
  "returned (retrieveRelevantForms store_up 7 ''resume'' 5) = Some [resume_old, resume_new] \<and>
   userId resume_old = 7 \<and> userId resume_new = 7 \<and>
   score (generateEmbedding ''resume'') other_owner = 1 \<and>
   returned (retrieveRelevantForms store_fetch_down 7 ''resume'' 2) = Some [no_vector, short_vector] \<and>
   userId no_vector = 7 \<and> userId short_vector = 7"
  using owner_scoping [OF sample_retrieve_5] owner_scoping [OF sample_fallback]
  by (simp add: sample_retrieve_5 sample_fallback score_same_text)

end
